theory Spec2Isabelle
  imports Complex_Main
begin

section \<open>Data model\<close>

text \<open>
  The handlers under \<^verbatim>\<open>src/app/api/orders\<close> and \<^verbatim>\<open>src/app/api/products\<close> read and write
  three tables through the ORM: customers, products and orders (each order owning its
  order items). A table is the list of its rows, and of a customer only the id is kept.
  JavaScript numbers that hold money are exact rationals here, quantities and stock are
  integers, and timestamps are natural numbers (milliseconds). The tables the handlers
  only join in their answers (addresses, payments, categories, product images and
  variants) are left out, and with them the foreign keys into those tables.
\<close>

datatype role = ADMIN | MANAGER | USER

type_synonym session = "role option"

datatype order_status = PENDING | CONFIRMED | PROCESSING | SHIPPED | DELIVERED | CANCELLED

datatype payment_status = PAYMENT_PENDING | PAID | FAILED | REFUNDED

datatype shipping_status = NOT_SHIPPED | SHIPPING_SHIPPED | IN_TRANSIT | SHIPPING_DELIVERED

datatype product_status = ACTIVE | INACTIVE | DISCONTINUED

record product_row =
  p_id :: string
  p_name :: string
  p_description :: "string option"
  p_price :: rat
  p_categoryId :: string
  p_sku :: string
  p_stock :: int
  p_costPrice :: "rat option"
  p_lowStock :: "int option"
  p_image :: "string option"
  p_status :: product_status

record order_item =
  i_productId :: string
  i_quantity :: int
  i_price :: rat
  i_total :: rat

record order_row =
  o_id :: string
  o_orderNumber :: string
  o_customerId :: string
  o_subtotal :: rat
  o_tax :: rat
  o_shipping :: rat
  o_total :: rat
  o_status :: order_status
  o_paymentStatus :: payment_status
  o_shippingStatus :: shipping_status
  o_shippingAddressId :: "string option"
  o_notes :: "string option"
  o_items :: "order_item list"
  o_createdAt :: nat
  o_updatedAt :: nat

record db =
  customers :: "string list"
  products :: "product_row list"
  orders :: "order_row list"

text \<open>What the server reads from outside the request: the clock and the identifier the
  database generates for a new row.\<close>

record env =
  e_now :: nat
  e_newId :: string

text \<open>The JSON error bodies of the handlers, one constructor per message.\<close>

datatype api_error =
    Unauthorized
  | InsufficientPermissions
  | ValidationFailed
  | InvalidInputData
  | CustomerNotFound
  | ProductsNotFound
  | InsufficientStock string
  | FailedToCreateOrder
  | OrderNotFound
  | FailedToUpdateOrder
  | OnlyPendingDeletable
  | FailedToDeleteOrder
  | ProductNotFound
  | SkuExists
  | CannotDeleteProductWithOrders
  | InternalServerError

fun http_status :: "api_error \<Rightarrow> nat" where
  "http_status Unauthorized = 401"
| "http_status InsufficientPermissions = 403"
| "http_status ValidationFailed = 400"
| "http_status InvalidInputData = 400"
| "http_status CustomerNotFound = 404"
| "http_status ProductsNotFound = 404"
| "http_status (InsufficientStock n) = 400"
| "http_status FailedToCreateOrder = 500"
| "http_status OrderNotFound = 404"
| "http_status FailedToUpdateOrder = 500"
| "http_status OnlyPendingDeletable = 400"
| "http_status FailedToDeleteOrder = 500"
| "http_status ProductNotFound = 404"
| "http_status SkuExists = 400"
| "http_status CannotDeleteProductWithOrders = 400"
| "http_status InternalServerError = 500"

section \<open>ORM calls\<close>

text \<open>\<^verbatim>\<open>prisma.product.findUnique({ where: { id } })\<close> and the same for an order.\<close>

definition findUnique_product :: "string \<Rightarrow> db \<Rightarrow> product_row option" where
  "findUnique_product pid d = find (\<lambda>p. p_id p = pid) (products d)"

definition findUnique_order :: "string \<Rightarrow> db \<Rightarrow> order_row option" where
  "findUnique_order oid d = find (\<lambda>ord. o_id ord = oid) (orders d)"

text \<open>\<^verbatim>\<open>tx.product.update({ where: { id }, data: { stock: { increment: n } } })\<close>: the
  ORM throws when no row has the id, which is \<open>None\<close> here.\<close>

definition product_increment :: "string \<Rightarrow> int \<Rightarrow> product_row list \<Rightarrow> product_row list option" where
  "product_increment pid n ps =
     (if pid \<in> p_id ` set ps
      then Some (map (\<lambda>p. if p_id p = pid then p\<lparr>p_stock := p_stock p + n\<rparr> else p) ps)
      else None)"

definition product_decrement :: "string \<Rightarrow> int \<Rightarrow> product_row list \<Rightarrow> product_row list option" where
  "product_decrement pid n ps =
     (if pid \<in> p_id ` set ps
      then Some (map (\<lambda>p. if p_id p = pid then p\<lparr>p_stock := p_stock p - n\<rparr> else p) ps)
      else None)"

text \<open>The loop \<^verbatim>\<open>for (const item of existingOrder.items) await tx.product.update(...)\<close> of
  the order update and the order deletion.\<close>

fun restore_stock :: "order_item list \<Rightarrow> product_row list \<Rightarrow> product_row list option" where
  "restore_stock [] ps = Some ps"
| "restore_stock (it # its) ps =
     (case product_increment (i_productId it) (i_quantity it) ps of
        None \<Rightarrow> None
      | Some ps' \<Rightarrow> restore_stock its ps')"

section \<open>POST /api/orders\<close>

text \<open>The parsed body. The schema asks of a quantity only that it is a number of at
  least 1; the model takes the whole numbers, which are what the stock it is compared
  with and subtracted from holds.\<close>

record request_item =
  r_productId :: string
  r_quantity :: int
  r_price :: rat

record order_create_body =
  b_customerId :: string
  b_items :: "request_item list"
  b_shippingAddressId :: "string option"
  b_notes :: "string option"

definition OrderCreateSchema :: "order_create_body \<Rightarrow> bool" where
  "OrderCreateSchema b \<longleftrightarrow>
     1 \<le> length (b_customerId b) \<and>
     (\<forall>it \<in> set (b_items b).
        1 \<le> length (r_productId it) \<and> 1 \<le> r_quantity it \<and> 0 \<le> r_price it) \<and>
     1 \<le> length (b_items b)"

text \<open>\<^verbatim>\<open>prisma.product.findMany({ where: { id: { in: productIds } } })\<close>\<close>

definition findMany_products :: "string list \<Rightarrow> product_row list \<Rightarrow> product_row list" where
  "findMany_products productIds ps = filter (\<lambda>p. p_id p \<in> set productIds) ps"

text \<open>The stock check loop: the name of the first line's product whose stock is below the
  requested quantity, if any.\<close>

fun check_stock :: "product_row list \<Rightarrow> request_item list \<Rightarrow> string option" where
  "check_stock prods [] = None"
| "check_stock prods (it # its) =
     (case find (\<lambda>p. p_id p = r_productId it) prods of
        Some product \<Rightarrow>
          if p_stock product < r_quantity it then Some (p_name product)
          else check_stock prods its
      | None \<Rightarrow> check_stock prods its)"

definition subtotal_of :: "request_item list \<Rightarrow> rat" where
  "subtotal_of its = foldl (\<lambda>sum it. sum + r_price it * of_int (r_quantity it)) 0 its"

definition tax_of :: "rat \<Rightarrow> rat" where
  "tax_of subtotal = subtotal * (1 / 10)"

definition shipping_fee :: rat where
  "shipping_fee = 10"

function digits :: "nat \<Rightarrow> string" where
  "digits n = (if n < 10 then [char_of (48 + n)]
               else digits (n div 10) @ [char_of (48 + n mod 10)])"
  by pat_completeness auto
termination
  by (relation "measure id") auto

declare digits.simps [simp del]

definition new_order :: "order_create_body \<Rightarrow> env \<Rightarrow> order_row" where
  "new_order b e =
     (let subtotal = subtotal_of (b_items b);
          tax = tax_of subtotal;
          shipping = shipping_fee;
          total = subtotal + tax + shipping
      in \<lparr> o_id = e_newId e,
           o_orderNumber = ''ORD-'' @ digits (e_now e),
           o_customerId = b_customerId b,
           o_subtotal = subtotal,
           o_tax = tax,
           o_shipping = shipping,
           o_total = total,
           o_status = PENDING,
           o_paymentStatus = PAYMENT_PENDING,
           o_shippingStatus = NOT_SHIPPED,
           o_shippingAddressId = b_shippingAddressId b,
           o_notes = b_notes b,
           o_items = map (\<lambda>it. \<lparr> i_productId = r_productId it,
                                  i_quantity = r_quantity it,
                                  i_price = r_price it,
                                  i_total = r_price it * of_int (r_quantity it) \<rparr>) (b_items b),
           o_createdAt = e_now e,
           o_updatedAt = e_now e \<rparr>)"

text \<open>The loop \<^verbatim>\<open>for (const item of validatedData.items) await tx.product.update(...)\<close>
  with \<^verbatim>\<open>stock: { decrement: item.quantity }\<close>.\<close>

fun decrement_stock :: "request_item list \<Rightarrow> product_row list \<Rightarrow> product_row list option" where
  "decrement_stock [] ps = Some ps"
| "decrement_stock (it # its) ps =
     (case product_decrement (r_productId it) (r_quantity it) ps of
        None \<Rightarrow> None
      | Some ps' \<Rightarrow> decrement_stock its ps')"

text \<open>The handler up to the transaction: every guard and read before
  \<^verbatim>\<open>prisma.$transaction\<close>. It writes nothing.\<close>

definition POST_checks :: "session \<Rightarrow> order_create_body \<Rightarrow> db \<Rightarrow> api_error option" where
  "POST_checks s b d =
     (case s of
        None \<Rightarrow> Some Unauthorized
      | Some r \<Rightarrow>
          if r \<notin> {ADMIN, MANAGER} then Some InsufficientPermissions
          else if \<not> OrderCreateSchema b then Some ValidationFailed
          else if b_customerId b \<notin> set (customers d) then Some CustomerNotFound
          else
            let productIds = map r_productId (b_items b);
                prods = findMany_products productIds (products d)
            in if length prods \<noteq> length productIds then Some ProductsNotFound
               else (case check_stock prods (b_items b) of
                       Some n \<Rightarrow> Some (InsufficientStock n)
                     | None \<Rightarrow> None))"

text \<open>The body of \<^verbatim>\<open>prisma.$transaction\<close>: the order row with its items is created, then
  the stock of each line's product is decremented. A throw inside (a primary key already
  taken, a product row that is gone) rolls everything back: \<open>None\<close>.\<close>

definition POST_transaction :: "order_create_body \<Rightarrow> env \<Rightarrow> db \<Rightarrow> (order_row \<times> db) option" where
  "POST_transaction b e d =
     (if e_newId e \<in> o_id ` set (orders d) then None
      else
        let newOrder = new_order b e in
        (case decrement_stock (b_items b) (products d) of
           None \<Rightarrow> None
         | Some ps' \<Rightarrow> Some (newOrder, d\<lparr>products := ps', orders := orders d @ [newOrder]\<rparr>)))"

definition orders_POST :: "session \<Rightarrow> order_create_body \<Rightarrow> env \<Rightarrow> db \<Rightarrow> (api_error + order_row) \<times> db" where
  "orders_POST s b e d =
     (case POST_checks s b d of
        Some err \<Rightarrow> (Inl err, d)
      | None \<Rightarrow>
          (case POST_transaction b e d of
             None \<Rightarrow> (Inl FailedToCreateOrder, d)
           | Some (newOrder, d') \<Rightarrow> (Inr newOrder, d')))"

section \<open>PUT /api/orders/[id]\<close>

text \<open>The parsed body: every field is optional, and the enumerations of the schema are
  the datatypes above, so a body of this type has passed \<^verbatim>\<open>OrderUpdateSchema.parse\<close>.\<close>

record order_update_body =
  u_status :: "order_status option"
  u_paymentStatus :: "payment_status option"
  u_shippingStatus :: "shipping_status option"
  u_notes :: "string option"
  u_shippingAddressId :: "string option"

text \<open>\<^verbatim>\<open>data: { ...validatedData, updatedAt: new Date() }\<close>: a field that is absent from
  the body keeps its stored value.\<close>

definition apply_order_update :: "order_update_body \<Rightarrow> nat \<Rightarrow> order_row \<Rightarrow> order_row" where
  "apply_order_update b now ord =
     ord\<lparr> o_status := (case u_status b of Some v \<Rightarrow> v | None \<Rightarrow> o_status ord),
          o_paymentStatus := (case u_paymentStatus b of Some v \<Rightarrow> v | None \<Rightarrow> o_paymentStatus ord),
          o_shippingStatus := (case u_shippingStatus b of Some v \<Rightarrow> v | None \<Rightarrow> o_shippingStatus ord),
          o_notes := (case u_notes b of Some v \<Rightarrow> Some v | None \<Rightarrow> o_notes ord),
          o_shippingAddressId :=
            (case u_shippingAddressId b of Some v \<Rightarrow> Some v | None \<Rightarrow> o_shippingAddressId ord),
          o_updatedAt := now \<rparr>"

type_synonym stock_update = "string \<times> int"

definition stockUpdates_of :: "order_update_body \<Rightarrow> order_row \<Rightarrow> stock_update list" where
  "stockUpdates_of b existingOrder =
     (if u_status b = Some CANCELLED \<and> o_status existingOrder \<noteq> CANCELLED
      then map (\<lambda>item. (i_productId item, i_quantity item)) (o_items existingOrder)
      else [])"

fun apply_stockUpdates :: "stock_update list \<Rightarrow> product_row list \<Rightarrow> product_row list option" where
  "apply_stockUpdates [] ps = Some ps"
| "apply_stockUpdates (u # us) ps =
     (case product_increment (fst u) (snd u) ps of
        None \<Rightarrow> None
      | Some ps' \<Rightarrow> apply_stockUpdates us ps')"

definition orders_id_PUT ::
  "session \<Rightarrow> string \<Rightarrow> order_update_body \<Rightarrow> env \<Rightarrow> db \<Rightarrow> (api_error + order_row) \<times> db" where
  "orders_id_PUT s oid b e d =
     (case s of
        None \<Rightarrow> (Inl Unauthorized, d)
      | Some r \<Rightarrow>
          if r \<notin> {ADMIN, MANAGER} then (Inl InsufficientPermissions, d)
          else
            (case findUnique_order oid d of
               None \<Rightarrow> (Inl OrderNotFound, d)
             | Some existingOrder \<Rightarrow>
                 let stockUpdates = stockUpdates_of b existingOrder;
                     os' = map (\<lambda>ord. if o_id ord = oid
                                       then apply_order_update b (e_now e) ord else ord) (orders d)
                 in (case (if 0 < length stockUpdates
                           then apply_stockUpdates stockUpdates (products d)
                           else Some (products d)) of
                       None \<Rightarrow> (Inl FailedToUpdateOrder, d)
                     | Some ps' \<Rightarrow>
                         (Inr (apply_order_update b (e_now e) existingOrder),
                          d\<lparr>products := ps', orders := os'\<rparr>))))"

section \<open>DELETE /api/orders/[id]\<close>

definition orders_id_DELETE :: "session \<Rightarrow> string \<Rightarrow> db \<Rightarrow> (api_error + unit) \<times> db" where
  "orders_id_DELETE s oid d =
     (case s of
        None \<Rightarrow> (Inl Unauthorized, d)
      | Some r \<Rightarrow>
          if r \<noteq> ADMIN then (Inl InsufficientPermissions, d)
          else
            (case findUnique_order oid d of
               None \<Rightarrow> (Inl OrderNotFound, d)
             | Some existingOrder \<Rightarrow>
                 if o_status existingOrder \<noteq> PENDING then (Inl OnlyPendingDeletable, d)
                 else
                   (case restore_stock (o_items existingOrder) (products d) of
                      None \<Rightarrow> (Inl FailedToDeleteOrder, d)
                    | Some ps' \<Rightarrow>
                        (Inr (),
                         d\<lparr>products := ps',
                           orders := filter (\<lambda>ord. o_id ord \<noteq> oid) (orders d)\<rparr>))))"

section \<open>The product handlers\<close>

record product_create_body =
  pc_name :: string
  pc_description :: "string option"
  pc_price :: rat
  pc_categoryId :: string
  pc_sku :: string
  pc_stock :: int
  pc_costPrice :: "rat option"
  pc_lowStock :: "int option"
  pc_image :: "string option"
  pc_status :: "product_status option"

definition createProductSchema :: "product_create_body \<Rightarrow> bool" where
  "createProductSchema b \<longleftrightarrow>
     1 \<le> length (pc_name b) \<and> 0 < pc_price b \<and> 1 \<le> length (pc_categoryId b) \<and>
     1 \<le> length (pc_sku b) \<and> 0 \<le> pc_stock b \<and>
     (case pc_costPrice b of None \<Rightarrow> True | Some c \<Rightarrow> 0 < c) \<and>
     (case pc_lowStock b of None \<Rightarrow> True | Some l \<Rightarrow> 0 \<le> l)"

definition products_POST ::
  "session \<Rightarrow> product_create_body \<Rightarrow> env \<Rightarrow> db \<Rightarrow> (api_error + product_row) \<times> db" where
  "products_POST s b e d =
     (if s = None \<or> (s \<noteq> Some ADMIN \<and> s \<noteq> Some MANAGER) then (Inl Unauthorized, d)
      else if \<not> createProductSchema b then (Inl InvalidInputData, d)
      else if find (\<lambda>p. p_sku p = pc_sku b) (products d) \<noteq> None then (Inl SkuExists, d)
      else if e_newId e \<in> p_id ` set (products d) then (Inl InternalServerError, d)
      else
        let product = \<lparr> p_id = e_newId e, p_name = pc_name b,
                        p_description = pc_description b, p_price = pc_price b,
                        p_categoryId = pc_categoryId b, p_sku = pc_sku b,
                        p_stock = pc_stock b, p_costPrice = pc_costPrice b,
                        p_lowStock = pc_lowStock b, p_image = pc_image b,
                        p_status = (case pc_status b of None \<Rightarrow> ACTIVE | Some v \<Rightarrow> v) \<rparr>
        in (Inr product, d\<lparr>products := products d @ [product]\<rparr>))"

record product_update_body =
  pu_name :: "string option"
  pu_description :: "string option"
  pu_price :: "rat option"
  pu_categoryId :: "string option"
  pu_sku :: "string option"
  pu_stock :: "int option"
  pu_costPrice :: "rat option"
  pu_lowStock :: "int option"
  pu_image :: "string option"
  pu_status :: "product_status option"

definition updateProductSchema :: "product_update_body \<Rightarrow> bool" where
  "updateProductSchema b \<longleftrightarrow>
     (case pu_name b of None \<Rightarrow> True | Some n \<Rightarrow> 1 \<le> length n) \<and>
     (case pu_price b of None \<Rightarrow> True | Some v \<Rightarrow> 0 < v) \<and>
     (case pu_categoryId b of None \<Rightarrow> True | Some c \<Rightarrow> 1 \<le> length c) \<and>
     (case pu_sku b of None \<Rightarrow> True | Some k \<Rightarrow> 1 \<le> length k) \<and>
     (case pu_stock b of None \<Rightarrow> True | Some n \<Rightarrow> 0 \<le> n) \<and>
     (case pu_costPrice b of None \<Rightarrow> True | Some c \<Rightarrow> 0 < c) \<and>
     (case pu_lowStock b of None \<Rightarrow> True | Some l \<Rightarrow> 0 \<le> l)"

definition apply_product_update :: "product_update_body \<Rightarrow> product_row \<Rightarrow> product_row" where
  "apply_product_update b p =
     p\<lparr> p_name := (case pu_name b of Some v \<Rightarrow> v | None \<Rightarrow> p_name p),
        p_description := (case pu_description b of Some v \<Rightarrow> Some v | None \<Rightarrow> p_description p),
        p_price := (case pu_price b of Some v \<Rightarrow> v | None \<Rightarrow> p_price p),
        p_categoryId := (case pu_categoryId b of Some v \<Rightarrow> v | None \<Rightarrow> p_categoryId p),
        p_sku := (case pu_sku b of Some v \<Rightarrow> v | None \<Rightarrow> p_sku p),
        p_stock := (case pu_stock b of Some v \<Rightarrow> v | None \<Rightarrow> p_stock p),
        p_costPrice := (case pu_costPrice b of Some v \<Rightarrow> Some v | None \<Rightarrow> p_costPrice p),
        p_lowStock := (case pu_lowStock b of Some v \<Rightarrow> Some v | None \<Rightarrow> p_lowStock p),
        p_image := (case pu_image b of Some v \<Rightarrow> Some v | None \<Rightarrow> p_image p),
        p_status := (case pu_status b of Some v \<Rightarrow> v | None \<Rightarrow> p_status p) \<rparr>"

definition products_id_PUT ::
  "session \<Rightarrow> string \<Rightarrow> product_update_body \<Rightarrow> db \<Rightarrow> (api_error + product_row) \<times> db" where
  "products_id_PUT s pid b d =
     (if s = None \<or> (s \<noteq> Some ADMIN \<and> s \<noteq> Some MANAGER) then (Inl Unauthorized, d)
      else if \<not> updateProductSchema b then (Inl InvalidInputData, d)
      else
        (case findUnique_product pid d of
           None \<Rightarrow> (Inl ProductNotFound, d)
         | Some existingProduct \<Rightarrow>
             if (case pu_sku b of
                   None \<Rightarrow> False
                 | Some k \<Rightarrow> k \<noteq> [] \<and> k \<noteq> p_sku existingProduct \<and>
                     find (\<lambda>p. p_sku p = k) (products d) \<noteq> None)
             then (Inl SkuExists, d)
             else
               (Inr (apply_product_update b existingProduct),
                d\<lparr>products := map (\<lambda>p. if p_id p = pid then apply_product_update b p else p)
                                  (products d)\<rparr>)))"

text \<open>\<^verbatim>\<open>existingProduct.orderItems\<close>: the order items, of all orders, that name the
  product.\<close>

definition orderItems_of :: "string \<Rightarrow> db \<Rightarrow> order_item list" where
  "orderItems_of pid d = filter (\<lambda>it. i_productId it = pid) (concat (map o_items (orders d)))"

definition products_id_DELETE :: "session \<Rightarrow> string \<Rightarrow> db \<Rightarrow> (api_error + unit) \<times> db" where
  "products_id_DELETE s pid d =
     (if s = None \<or> s \<noteq> Some ADMIN then (Inl Unauthorized, d)
      else
        (case findUnique_product pid d of
           None \<Rightarrow> (Inl ProductNotFound, d)
         | Some existingProduct \<Rightarrow>
             if 0 < length (orderItems_of pid d) then (Inl CannotDeleteProductWithOrders, d)
             else (Inr (), d\<lparr>products := filter (\<lambda>p. p_id p \<noteq> pid) (products d)\<rparr>)))"

section \<open>Sequences of requests\<close>

text \<open>The six writing requests, and the database after a sequence of them served one
  after the other.\<close>

datatype operation =
    CreateOrder session order_create_body env
  | UpdateOrder session string order_update_body env
  | DeleteOrder session string
  | CreateProduct session product_create_body env
  | UpdateProduct session string product_update_body
  | DeleteProduct session string

fun step :: "operation \<Rightarrow> db \<Rightarrow> db" where
  "step (CreateOrder s b e) d = snd (orders_POST s b e d)"
| "step (UpdateOrder s oid b e) d = snd (orders_id_PUT s oid b e d)"
| "step (DeleteOrder s oid) d = snd (orders_id_DELETE s oid d)"
| "step (CreateProduct s b e) d = snd (products_POST s b e d)"
| "step (UpdateProduct s pid b) d = snd (products_id_PUT s pid b d)"
| "step (DeleteProduct s pid) d = snd (products_id_DELETE s pid d)"

definition run :: "operation list \<Rightarrow> db \<Rightarrow> db" where
  "run ops d = foldl (\<lambda>d' op. step op d') d ops"

text \<open>Two order creations served concurrently. Every \<^verbatim>\<open>await\<close> of the handler lets the
  other request run, and the guards of \<^verbatim>\<open>POST\<close> are outside \<^verbatim>\<open>prisma.$transaction\<close>:
  in this schedule both requests pass their guards on the same database, then the two
  transactions commit one after the other.\<close>

definition POST_commit :: "api_error option \<Rightarrow> order_create_body \<Rightarrow> env \<Rightarrow> db \<Rightarrow> db" where
  "POST_commit chk b e d =
     (case chk of
        Some err \<Rightarrow> d
      | None \<Rightarrow> (case POST_transaction b e d of None \<Rightarrow> d | Some (newOrder, d') \<Rightarrow> d'))"

definition POST_interleaved ::
  "session \<Rightarrow> order_create_body \<Rightarrow> env \<Rightarrow> session \<Rightarrow> order_create_body \<Rightarrow> env \<Rightarrow> db \<Rightarrow> db" where
  "POST_interleaved sA bA eA sB bB eB d =
     (let chkA = POST_checks sA bA d;
          chkB = POST_checks sB bB d
      in POST_commit chkB bB eB (POST_commit chkA bA eA d))"

section \<open>Predicates of the statements\<close>

text \<open>The session may update orders (and create them): the roles the handlers let through.\<close>

definition may_write_orders :: "session \<Rightarrow> bool" where
  "may_write_orders s \<longleftrightarrow> s = Some ADMIN \<or> s = Some MANAGER"

text \<open>A line asks for more than its product has in stock.\<close>

definition insufficient :: "db \<Rightarrow> request_item \<Rightarrow> bool" where
  "insufficient d it =
     (case findUnique_product (r_productId it) d of
        None \<Rightarrow> False
      | Some p \<Rightarrow> p_stock p < r_quantity it)"

text \<open>The condition the stock check loop tests on a line, against the products the
  handler has fetched.\<close>

definition line_short :: "product_row list \<Rightarrow> request_item \<Rightarrow> bool" where
  "line_short prods it =
     (case find (\<lambda>p. p_id p = r_productId it) prods of
        None \<Rightarrow> False
      | Some p \<Rightarrow> p_stock p < r_quantity it)"

text \<open>The guards of \<^verbatim>\<open>POST /api/orders\<close> that come before the stock check: the role, the
  schema, the customer lookup and the comparison of the number of products found with the
  number of lines.\<close>

definition reaches_product_lookup :: "session \<Rightarrow> order_create_body \<Rightarrow> db \<Rightarrow> bool" where
  "reaches_product_lookup s b d \<longleftrightarrow>
     may_write_orders s \<and> OrderCreateSchema b \<and> b_customerId b \<in> set (customers d)"

definition reaches_stock_check :: "session \<Rightarrow> order_create_body \<Rightarrow> db \<Rightarrow> bool" where
  "reaches_stock_check s b d \<longleftrightarrow>
     reaches_product_lookup s b d \<and>
     length (findMany_products (map r_productId (b_items b)) (products d)) = length (b_items b)"

text \<open>The primary key of the products table.\<close>

definition product_ids_unique :: "db \<Rightarrow> bool" where
  "product_ids_unique d \<longleftrightarrow> distinct (map p_id (products d))"

definition stock_nonneg :: "db \<Rightarrow> bool" where
  "stock_nonneg d \<longleftrightarrow> (\<forall>p \<in> set (products d). 0 \<le> p_stock p)"

definition quantities_nonneg :: "db \<Rightarrow> bool" where
  "quantities_nonneg d \<longleftrightarrow> (\<forall>ord \<in> set (orders d). \<forall>it \<in> set (o_items ord). 0 \<le> i_quantity it)"

text \<open>What the handlers keep true from one request to the next: no stock is negative,
  no two product rows share an id, and no stored line has a negative quantity.\<close>

definition inventory_inv :: "db \<Rightarrow> bool" where
  "inventory_inv d \<longleftrightarrow> stock_nonneg d \<and> product_ids_unique d \<and> quantities_nonneg d"

text \<open>Every product named by a line of the order has a row (the foreign key of order
  items).\<close>

definition items_resolve :: "order_row \<Rightarrow> db \<Rightarrow> bool" where
  "items_resolve ord d \<longleftrightarrow> (\<forall>it \<in> set (o_items ord). i_productId it \<in> p_id ` set (products d))"

text \<open>Some order line names the product.\<close>

definition referenced :: "string \<Rightarrow> db \<Rightarrow> bool" where
  "referenced pid d \<longleftrightarrow> (\<exists>ord \<in> set (orders d). \<exists>it \<in> set (o_items ord). i_productId it = pid)"

text \<open>The quantity an order holds of a product: the sum over its lines that name it.\<close>

definition ordered_quantity :: "order_item list \<Rightarrow> string \<Rightarrow> int" where
  "ordered_quantity its pid = sum_list (map i_quantity (filter (\<lambda>it. i_productId it = pid) its))"

definition restored :: "order_item list \<Rightarrow> product_row list \<Rightarrow> product_row list" where
  "restored its ps = map (\<lambda>p. p\<lparr>p_stock := p_stock p + ordered_quantity its (p_id p)\<rparr>) ps"

definition totals_ok :: "order_row \<Rightarrow> bool" where
  "totals_ok ord \<longleftrightarrow>
     o_subtotal ord = sum_list (map (\<lambda>it. of_int (i_quantity it) * i_price it) (o_items ord)) \<and>
     o_total ord = o_subtotal ord + o_tax ord + o_shipping ord"

text \<open>The fields of an order that are not in \<^verbatim>\<open>OrderUpdateSchema\<close> and are not
  \<^verbatim>\<open>updatedAt\<close>.\<close>

definition frame_of :: "order_row \<Rightarrow>
    string \<times> string \<times> string \<times> rat \<times> rat \<times> rat \<times> rat \<times> order_item list \<times> nat" where
  "frame_of ord =
     (o_id ord, o_orderNumber ord, o_customerId ord, o_subtotal ord, o_tax ord,
      o_shipping ord, o_total ord, o_items ord, o_createdAt ord)"


section \<open>Sample data\<close>

definition product_X :: product_row where
  "product_X = \<lparr> p_id = ''X'', p_name = ''Widget X'', p_description = None, p_price = 10,
                 p_categoryId = ''cat1'', p_sku = ''SKU-X'', p_stock = 5, p_costPrice = None,
                 p_lowStock = None, p_image = None, p_status = ACTIVE \<rparr>"

definition product_Y :: product_row where
  "product_Y = \<lparr> p_id = ''Y'', p_name = ''Widget Y'', p_description = None, p_price = 20,
                 p_categoryId = ''cat1'', p_sku = ''SKU-Y'', p_stock = 3, p_costPrice = None,
                 p_lowStock = None, p_image = None, p_status = ACTIVE \<rparr>"

definition line :: "string \<Rightarrow> int \<Rightarrow> rat \<Rightarrow> request_item" where
  "line pid q pr = \<lparr> r_productId = pid, r_quantity = q, r_price = pr \<rparr>"

definition body_of :: "request_item list \<Rightarrow> order_create_body" where
  "body_of its = \<lparr> b_customerId = ''c1'', b_items = its,
                    b_shippingAddressId = None, b_notes = None \<rparr>"

definition env_of :: "string \<Rightarrow> env" where
  "env_of oid = \<lparr> e_now = 1700000000000, e_newId = oid \<rparr>"

definition db_empty :: db where
  "db_empty = \<lparr> customers = [''c1''], products = [product_X, product_Y], orders = [] \<rparr>"

text \<open>The order the scenario of the specification creates: two of X at 10, one of Y at 20.\<close>

definition order_o1 :: order_row where
  "order_o1 = new_order (body_of [line ''X'' 2 10, line ''Y'' 1 20]) (env_of ''o1'')"

definition db_o1 :: "order_status \<Rightarrow> db" where
  "db_o1 st = \<lparr> customers = [''c1''],
                products = [product_X\<lparr>p_stock := 3\<rparr>, product_Y\<lparr>p_stock := 2\<rparr>],
                orders = [order_o1\<lparr>o_status := st\<rparr>] \<rparr>"

definition status_body :: "order_status \<Rightarrow> order_update_body" where
  "status_body st = \<lparr> u_status = Some st, u_paymentStatus = None, u_shippingStatus = None,
                      u_notes = None, u_shippingAddressId = None \<rparr>"

section \<open>Order creation and insufficient stock\<close>

lemmas sample_defs = product_X_def product_Y_def line_def body_of_def env_of_def db_empty_def

lemma find_filter_same: "(\<And>x. P x \<Longrightarrow> Q x) \<Longrightarrow> find P (filter Q xs) = find P xs"
  by (induction xs) auto

lemma find_found_line:
  "it \<in> set its \<Longrightarrow>
   find (\<lambda>p. p_id p = r_productId it) (findMany_products (map r_productId its) (products d))
     = findUnique_product (r_productId it) d"
  unfolding findMany_products_def findUnique_product_def
  by (rule find_filter_same) auto

lemma check_stock_None_iff:
  "check_stock prods its = None \<longleftrightarrow> (\<forall>it \<in> set its. \<not> line_short prods it)"
  by (induction its) (auto simp: line_short_def split: option.splits)

lemma check_stock_Some:
  "check_stock prods its = Some n \<Longrightarrow>
   \<exists>pre it post p. its = pre @ it # post \<and> (\<forall>x \<in> set pre. \<not> line_short prods x) \<and>
      find (\<lambda>p. p_id p = r_productId it) prods = Some p \<and> p_stock p < r_quantity it \<and>
      n = p_name p"
proof (induction its)
  case Nil
  then show ?case by simp
next
  case (Cons a its)
  show ?case
  proof (cases "line_short prods a")
    case True
    then obtain p where p: "find (\<lambda>p. p_id p = r_productId a) prods = Some p"
      "p_stock p < r_quantity a"
      by (auto simp: line_short_def split: option.splits)
    with Cons.prems have "n = p_name p" by simp
    with p have "a # its = [] @ a # its \<and> (\<forall>x \<in> set []. \<not> line_short prods x) \<and>
      find (\<lambda>p. p_id p = r_productId a) prods = Some p \<and> p_stock p < r_quantity a \<and>
      n = p_name p" by simp
    then show ?thesis by blast
  next
    case False
    then have "check_stock prods (a # its) = check_stock prods its"
      by (auto simp: line_short_def split: option.splits)
    with Cons.prems have "check_stock prods its = Some n" by simp
    from Cons.IH[OF this] obtain pre it post p where
      h: "its = pre @ it # post" "\<forall>x \<in> set pre. \<not> line_short prods x"
         "find (\<lambda>p. p_id p = r_productId it) prods = Some p" "p_stock p < r_quantity it"
         "n = p_name p" by blast
    then have "a # its = (a # pre) @ it # post \<and> (\<forall>x \<in> set (a # pre). \<not> line_short prods x) \<and>
      find (\<lambda>p. p_id p = r_productId it) prods = Some p \<and> p_stock p < r_quantity it \<and>
      n = p_name p" using False by simp
    then show ?thesis by blast
  qed
qed

lemma line_short_found:
  "it \<in> set its \<Longrightarrow>
   line_short (findMany_products (map r_productId its) (products d)) it = insufficient d it"
  by (simp add: line_short_def insufficient_def find_found_line)

lemma POST_checks_unchanged:
  "POST_checks s b d = Some err \<Longrightarrow> orders_POST s b e d = (Inl err, d)"
  by (simp add: orders_POST_def)

lemma POST_checks_insufficient:
  assumes "\<exists>it \<in> set (b_items b). insufficient d it"
  shows "POST_checks s b d \<noteq> None"
proof -
  let ?prods = "findMany_products (map r_productId (b_items b)) (products d)"
  from assms have "\<exists>it \<in> set (b_items b). line_short ?prods it"
    by (auto simp: line_short_found)
  then have "check_stock ?prods (b_items b) \<noteq> None"
    by (simp add: check_stock_None_iff)
  then show ?thesis
    by (auto simp: POST_checks_def Let_def split: option.splits)
qed

lemma POST_insufficient_name:
  assumes g: "reaches_stock_check s b d"
    and i: "\<exists>it \<in> set (b_items b). insufficient d it"
  shows "\<exists>pre it post p. b_items b = pre @ it # post \<and> (\<forall>x \<in> set pre. \<not> insufficient d x) \<and>
      findUnique_product (r_productId it) d = Some p \<and> p_stock p < r_quantity it \<and>
      orders_POST s b e d = (Inl (InsufficientStock (p_name p)), d)"
proof -
  let ?prods = "findMany_products (map r_productId (b_items b)) (products d)"
  from i have "\<exists>it \<in> set (b_items b). line_short ?prods it"
    by (auto simp: line_short_found)
  then obtain n where n: "check_stock ?prods (b_items b) = Some n"
    using check_stock_None_iff by fastforce
  from check_stock_Some[OF n] obtain pre it post p where
      h: "b_items b = pre @ it # post" "\<forall>x \<in> set pre. \<not> line_short ?prods x"
         "find (\<lambda>p. p_id p = r_productId it) ?prods = Some p" "p_stock p < r_quantity it"
         "n = p_name p" by blast
  from h(1) have mem: "it \<in> set (b_items b)" "set pre \<subseteq> set (b_items b)" by auto
  from h(2) mem(2) have pre: "\<forall>x \<in> set pre. \<not> insufficient d x"
    using line_short_found by blast
  from h(3) mem(1) have f: "findUnique_product (r_productId it) d = Some p"
    by (simp add: find_found_line)
  from g n have "POST_checks s b d = Some (InsufficientStock n)"
    by (auto simp: reaches_stock_check_def reaches_product_lookup_def may_write_orders_def
        POST_checks_def Let_def)
  then have "orders_POST s b e d = (Inl (InsufficientStock (p_name p)), d)"
    using h(5) by (simp add: orders_POST_def)
  with h(1) pre f h(4) show ?thesis by blast
qed

text \<open>
  C1, as stated, fails: a request with a line that asks for more than the stock is not
  always answered with the insufficient-stock error. The guards of the handler that come
  first win. Below, product X has 5 in stock. The first request asks for X twice (1 and
  100): the lookup returns one product for two lines and the answer is "One or more
  products not found". The second request asks for 100 of X and names a product Z that
  has no row: the same answer.
\<close>

theorem C1_counterexample:
  "insufficient db_empty (line ''X'' 100 10) \<and>
   orders_POST (Some ADMIN) (body_of [line ''X'' 1 10, line ''X'' 100 10]) (env_of ''o1'') db_empty
     = (Inl ProductsNotFound, db_empty) \<and>
   orders_POST (Some ADMIN) (body_of [line ''X'' 100 10, line ''Z'' 1 10]) (env_of ''o1'') db_empty
     = (Inl ProductsNotFound, db_empty)"
  by (simp add: sample_defs insufficient_def findUnique_product_def orders_POST_def
      POST_checks_def OrderCreateSchema_def findMany_products_def)

text \<open>
  C1, amended. Whenever a line of an order-creation request asks for more than the
  current stock of its product, the request fails, no order row is created and no stock
  changes (the database is returned as it was), whoever sends it and whichever guard
  rejects it. When the request passes the guards that come before the stock check (role,
  schema, customer lookup, as many products found as lines), the error is the
  insufficient-stock error, and it names the product of the first line, in the order of
  the request, whose quantity exceeds the stock.
\<close>

theorem C1_insufficient_stock_rejected:
  assumes "\<exists>it \<in> set (b_items b). insufficient d it"
  shows "(\<exists>err. orders_POST s b e d = (Inl err, d)) \<and>
         (reaches_stock_check s b d \<longrightarrow>
           (\<exists>pre it post p. b_items b = pre @ it # post \<and> (\<forall>x \<in> set pre. \<not> insufficient d x) \<and>
              findUnique_product (r_productId it) d = Some p \<and> p_stock p < r_quantity it \<and>
              orders_POST s b e d = (Inl (InsufficientStock (p_name p)), d)))"
proof
  from POST_checks_insufficient[OF assms] obtain err where "POST_checks s b d = Some err"
    by blast
  then show "\<exists>err. orders_POST s b e d = (Inl err, d)"
    using POST_checks_unchanged by blast
next
  show "reaches_stock_check s b d \<longrightarrow>
           (\<exists>pre it post p. b_items b = pre @ it # post \<and> (\<forall>x \<in> set pre. \<not> insufficient d x) \<and>
              findUnique_product (r_productId it) d = Some p \<and> p_stock p < r_quantity it \<and>
              orders_POST s b e d = (Inl (InsufficientStock (p_name p)), d))"
    using POST_insufficient_name[OF _ assms] by blast
qed

text \<open>The theorem at a request of a manager for 2 of X (5 in stock) and 4 of Y (3 in
  stock): the answer names Y.\<close>

theorem C1_insufficient_stock_rejected_witness:
  "insufficient db_empty (line ''Y'' 4 20) \<and>
   reaches_stock_check (Some MANAGER) (body_of [line ''X'' 2 10, line ''Y'' 4 20]) db_empty \<and>
   orders_POST (Some MANAGER) (body_of [line ''X'' 2 10, line ''Y'' 4 20]) (env_of ''o1'') db_empty
     = (Inl (InsufficientStock ''Widget Y''), db_empty)"
proof -
  let ?b = "body_of [line ''X'' 2 10, line ''Y'' 4 20]"
  have i: "insufficient db_empty (line ''Y'' 4 20)"
    by (simp add: sample_defs insufficient_def findUnique_product_def)
  then have ex: "\<exists>it \<in> set (b_items ?b). insufficient db_empty it"
    by (simp add: body_of_def)
  have g: "reaches_stock_check (Some MANAGER) ?b db_empty"
    by (simp add: sample_defs reaches_stock_check_def reaches_product_lookup_def
        may_write_orders_def OrderCreateSchema_def findMany_products_def)
  from C1_insufficient_stock_rejected[OF ex, of "Some MANAGER" "env_of ''o1''"] g
  obtain pre it post p where
    h: "b_items ?b = pre @ it # post" "\<forall>x \<in> set pre. \<not> insufficient db_empty x"
       "findUnique_product (r_productId it) db_empty = Some p" "p_stock p < r_quantity it"
       "orders_POST (Some MANAGER) ?b (env_of ''o1'') db_empty
          = (Inl (InsufficientStock (p_name p)), db_empty)"
    by blast
  have x: "\<not> insufficient db_empty (line ''X'' 2 10)"
    by (simp add: sample_defs insufficient_def findUnique_product_def)
  have "pre = [line ''X'' 2 10] \<and> it = line ''Y'' 4 20"
  proof (cases pre)
    case Nil
    with h(1) have "it = line ''X'' 2 10" by (simp add: body_of_def)
    with h(3,4) show ?thesis
      by (auto simp: sample_defs findUnique_product_def)
  next
    case (Cons a pre')
    with h(1) have a: "a = line ''X'' 2 10" "[line ''Y'' 4 20] = pre' @ it # post"
      by (simp_all add: body_of_def)
    from a(2) have "pre' = [] \<and> it = line ''Y'' 4 20"
      by (cases pre') simp_all
    with a(1) Cons show ?thesis by simp
  qed
  with h(3) have "p = product_Y"
    by (auto simp: sample_defs findUnique_product_def)
  with h(5) have "orders_POST (Some MANAGER) ?b (env_of ''o1'') db_empty
          = (Inl (InsufficientStock ''Widget Y''), db_empty)"
    by (simp add: product_Y_def)
  with i g show ?thesis by simp
qed

section \<open>Order creation and repeated products\<close>


lemma found_less_when_repeated:
  assumes "distinct (map p_id ps)" and "\<not> distinct ids"
  shows "length (filter (\<lambda>p. p_id p \<in> set ids) ps) < length ids"
proof -
  let ?found = "filter (\<lambda>p. p_id p \<in> set ids) ps"
  have "distinct (map p_id ?found)"
    using assms(1) by (simp add: distinct_map_filter)
  then have "length ?found = card (set (map p_id ?found))"
    by (metis distinct_card length_map)
  also have "\<dots> \<le> card (set ids)"
    by (rule card_mono) auto
  also have "card (set ids) < length ids"
    using assms(2) card_length[of ids] card_distinct[of ids] by linarith
  finally show ?thesis .
qed

lemma POST_checks_repeated:
  assumes "\<not> distinct (map r_productId (b_items b))" and "product_ids_unique d"
  shows "POST_checks s b d \<noteq> None"
    and "reaches_product_lookup s b d \<Longrightarrow> POST_checks s b d = Some ProductsNotFound"
proof -
  have "length (findMany_products (map r_productId (b_items b)) (products d))
          < length (map r_productId (b_items b))"
    unfolding findMany_products_def
    using assms by (intro found_less_when_repeated) (simp_all add: product_ids_unique_def)
  then have ne: "length (findMany_products (map r_productId (b_items b)) (products d))
          \<noteq> length (map r_productId (b_items b))" by simp
  then show "POST_checks s b d \<noteq> None"
    by (auto simp: POST_checks_def Let_def split: option.splits)
  show "reaches_product_lookup s b d \<Longrightarrow> POST_checks s b d = Some ProductsNotFound"
    using ne by (auto simp: POST_checks_def Let_def reaches_product_lookup_def may_write_orders_def)
qed

text \<open>
  C9. A request whose lines name the same product twice or more is never served: no order
  row is created and no stock changes. When it passes the role check, the schema and the
  customer lookup, the answer is "One or more products not found", status 404, whatever
  the stock of the product: the lookup returns each product row once (the ids of the
  products table are unique), so it finds fewer rows than the request has lines.
\<close>

theorem C9_repeated_product_rejected:
  assumes "\<not> distinct (map r_productId (b_items b))" and "product_ids_unique d"
  shows "(\<exists>err. orders_POST s b e d = (Inl err, d)) \<and>
         (reaches_product_lookup s b d \<longrightarrow>
            orders_POST s b e d = (Inl ProductsNotFound, d) \<and> http_status ProductsNotFound = 404)"
proof -
  from POST_checks_repeated(1)[OF assms] obtain err where "POST_checks s b d = Some err"
    by blast
  then have "\<exists>err. orders_POST s b e d = (Inl err, d)"
    using POST_checks_unchanged by blast
  moreover have "reaches_product_lookup s b d \<Longrightarrow> orders_POST s b e d = (Inl ProductsNotFound, d)"
    using POST_checks_repeated(2)[OF assms] POST_checks_unchanged by blast
  ultimately show ?thesis by simp
qed

text \<open>
  The theorem at a request of an administrator for 1 and 2 of X, which exists and has 5
  in stock.
\<close>

theorem C9_repeated_product_rejected_witness:
  "\<not> distinct (map r_productId (b_items (body_of [line ''X'' 1 10, line ''X'' 2 10]))) \<and>
   product_ids_unique db_empty \<and>
   reaches_product_lookup (Some ADMIN) (body_of [line ''X'' 1 10, line ''X'' 2 10]) db_empty \<and>
   findUnique_product ''X'' db_empty = Some product_X \<and> 1 + 2 \<le> p_stock product_X \<and>
   orders_POST (Some ADMIN) (body_of [line ''X'' 1 10, line ''X'' 2 10]) (env_of ''o1'') db_empty
     = (Inl ProductsNotFound, db_empty)"
proof -
  let ?b = "body_of [line ''X'' 1 10, line ''X'' 2 10]"
  have r: "\<not> distinct (map r_productId (b_items ?b))"
    by (simp add: sample_defs)
  have u: "product_ids_unique db_empty"
    by (simp add: sample_defs product_ids_unique_def)
  have g: "reaches_product_lookup (Some ADMIN) ?b db_empty"
    by (simp add: sample_defs reaches_product_lookup_def may_write_orders_def OrderCreateSchema_def)
  have f: "findUnique_product ''X'' db_empty = Some product_X \<and> 1 + 2 \<le> p_stock product_X"
    by (simp add: sample_defs findUnique_product_def)
  from C9_repeated_product_rejected[OF r u, of "Some ADMIN" "env_of ''o1''"] g
  have "orders_POST (Some ADMIN) ?b (env_of ''o1'') db_empty = (Inl ProductsNotFound, db_empty)"
    by blast
  with r u g f show ?thesis by blast
qed

section \<open>Order update: status changes, cancellation, frame\<close>

lemma product_increment_ids:
  "product_increment pid n ps = Some ps' \<Longrightarrow> map p_id ps' = map p_id ps"
  by (auto simp: product_increment_def split: if_splits)

lemma product_increment_Some:
  "pid \<in> p_id ` set ps \<Longrightarrow>
   product_increment pid n ps
     = Some (map (\<lambda>p. if p_id p = pid then p\<lparr>p_stock := p_stock p + n\<rparr> else p) ps)"
  by (simp add: product_increment_def)

lemma map_p_id_bump:
  "map p_id (map (\<lambda>p. if p_id p = pid then p\<lparr>p_stock := f p\<rparr> else p) ps) = map p_id ps"
  by (induction ps) auto

lemma ordered_quantity_Cons:
  "ordered_quantity (it # its) pid
     = (if i_productId it = pid then i_quantity it else 0) + ordered_quantity its pid"
  by (simp add: ordered_quantity_def)

lemma restore_stock_restored:
  "\<forall>it \<in> set its. i_productId it \<in> p_id ` set ps \<Longrightarrow> restore_stock its ps = Some (restored its ps)"
proof (induction its arbitrary: ps)
  case Nil
  then show ?case by (simp add: restored_def ordered_quantity_def)
next
  case (Cons it its)
  let ?ps' = "map (\<lambda>p. if p_id p = i_productId it then p\<lparr>p_stock := p_stock p + i_quantity it\<rparr> else p) ps"
  from Cons.prems have inc: "product_increment (i_productId it) (i_quantity it) ps = Some ?ps'"
    by (simp add: product_increment_Some)
  have "map p_id ?ps' = map p_id ps"
    by (rule map_p_id_bump)
  then have ids: "p_id ` set ?ps' = p_id ` set ps"
    by (metis set_map)
  with Cons.prems have "\<forall>x \<in> set its. i_productId x \<in> p_id ` set ?ps'" by simp
  from Cons.IH[OF this] have "restore_stock its ?ps' = Some (restored its ?ps')" .
  moreover have "restored its ?ps' = restored (it # its) ps"
    by (auto simp: restored_def ordered_quantity_Cons)
  ultimately show ?case using inc by simp
qed

lemma apply_stockUpdates_restore:
  "apply_stockUpdates (map (\<lambda>item. (i_productId item, i_quantity item)) its) ps = restore_stock its ps"
  by (induction its arbitrary: ps) (auto split: option.splits)



lemma apply_order_update_id: "o_id (apply_order_update b now ord) = o_id ord"
  by (simp add: apply_order_update_def)



lemma PUT_cases:
  "(\<exists>err. orders_id_PUT s oid b e d = (Inl err, d)) \<or>
   (\<exists>ord d'. findUnique_order oid d = Some ord \<and>
      orders_id_PUT s oid b e d = (Inr (apply_order_update b (e_now e) ord), d') \<and>
      orders d' = map (\<lambda>x. if o_id x = oid then apply_order_update b (e_now e) x else x) (orders d) \<and>
      customers d' = customers d)"
  by (auto simp: orders_id_PUT_def Let_def split: option.splits)

lemma frame_of_update: "frame_of (apply_order_update b now ord) = frame_of ord"
  by (simp add: frame_of_def apply_order_update_def)

lemma totals_ok_update: "totals_ok (apply_order_update b now ord) = totals_ok ord"
  by (simp add: totals_ok_def apply_order_update_def)






text \<open>The chain of the specification, each step a request of its own.\<close>

lemma lifecycle_chain_accepted:
  "map o_status (orders (run [UpdateOrder (Some ADMIN) ''o1'' (status_body CONFIRMED) (env_of ''u1''),
                              UpdateOrder (Some ADMIN) ''o1'' (status_body PROCESSING) (env_of ''u2''),
                              UpdateOrder (Some ADMIN) ''o1'' (status_body SHIPPED) (env_of ''u3''),
                              UpdateOrder (Some ADMIN) ''o1'' (status_body DELIVERED) (env_of ''u4'')]
                             (db_o1 PENDING)))
     = [DELIVERED]"
  by (simp add: run_def db_o1_def order_o1_def new_order_def env_of_def status_body_def
      orders_id_PUT_def findUnique_order_def stockUpdates_of_def apply_order_update_def Let_def)

lemma updated_orders_frame:
  "map frame_of (map (\<lambda>x. if o_id x = oid then apply_order_update b now x else x) os)
     = map frame_of os"
  by (induction os) (auto simp: frame_of_update)

lemma updated_orders_others:
  "filter (\<lambda>x. o_id x \<noteq> oid) (map (\<lambda>x. if o_id x = oid then apply_order_update b now x else x) os)
     = filter (\<lambda>x. o_id x \<noteq> oid) os"
  by (induction os) (auto simp: apply_order_update_id)

lemma updated_orders_totals:
  "map totals_ok (map (\<lambda>x. if o_id x = oid then apply_order_update b now x else x) os)
     = map totals_ok os"
  by (induction os) (auto simp: totals_ok_update)

text \<open>
  C10. Whatever the session, the order id and the body, after the update handler has run
  every order has the id, order number, customer, subtotal, tax, shipping, total, lines
  and creation time it had before; the orders with another id are untouched; an order
  satisfies the totals equations after the request exactly when it did before; and the
  order the handler returns has the frame of the stored one. The fields that can change
  are the five of the schema and \<^verbatim>\<open>updatedAt\<close>.
\<close>

theorem C10_update_frame:
  "map frame_of (orders (snd (orders_id_PUT s oid b e d))) = map frame_of (orders d) \<and>
   filter (\<lambda>x. o_id x \<noteq> oid) (orders (snd (orders_id_PUT s oid b e d)))
     = filter (\<lambda>x. o_id x \<noteq> oid) (orders d) \<and>
   map totals_ok (orders (snd (orders_id_PUT s oid b e d))) = map totals_ok (orders d) \<and>
   customers (snd (orders_id_PUT s oid b e d)) = customers d \<and>
   (\<forall>ord'. fst (orders_id_PUT s oid b e d) = Inr ord' \<longrightarrow>
      (\<exists>ord. findUnique_order oid d = Some ord \<and> frame_of ord' = frame_of ord))"
proof -
  from PUT_cases[of s oid b e d] show ?thesis
  proof
    assume "\<exists>err. orders_id_PUT s oid b e d = (Inl err, d)"
    then show ?thesis by auto
  next
    assume "\<exists>ord d'. findUnique_order oid d = Some ord \<and>
      orders_id_PUT s oid b e d = (Inr (apply_order_update b (e_now e) ord), d') \<and>
      orders d' = map (\<lambda>x. if o_id x = oid then apply_order_update b (e_now e) x else x) (orders d) \<and>
      customers d' = customers d"
    then obtain ord d' where f: "findUnique_order oid d = Some ord"
      and r: "orders_id_PUT s oid b e d = (Inr (apply_order_update b (e_now e) ord), d')"
      and o: "orders d' = map (\<lambda>x. if o_id x = oid then apply_order_update b (e_now e) x else x) (orders d)"
      and c: "customers d' = customers d"
      by blast
    show ?thesis using f c
      by (simp add: r o frame_of_update totals_ok_update apply_order_update_id
          updated_orders_frame updated_orders_others updated_orders_totals)
  qed
qed

text \<open>
  The theorem at the cancellation of a confirmed order: the status changes, the frame
  does not.
\<close>

theorem C10_update_frame_witness:
  "map frame_of (orders (snd (orders_id_PUT (Some ADMIN) ''o1'' (status_body CANCELLED)
      (env_of ''o2'') (db_o1 CONFIRMED)))) = [frame_of order_o1] \<and>
   map o_status (orders (snd (orders_id_PUT (Some ADMIN) ''o1'' (status_body CANCELLED)
      (env_of ''o2'') (db_o1 CONFIRMED)))) = [CANCELLED]"
proof -
  have "map frame_of (orders (db_o1 CONFIRMED)) = [frame_of order_o1]"
    by (simp add: db_o1_def frame_of_def)
  moreover have "map o_status (orders (snd (orders_id_PUT (Some ADMIN) ''o1'' (status_body CANCELLED)
      (env_of ''o2'') (db_o1 CONFIRMED)))) = [CANCELLED]"
    by (simp add: db_o1_def order_o1_def new_order_def env_of_def status_body_def orders_id_PUT_def
      findUnique_order_def stockUpdates_of_def apply_order_update_def Let_def product_increment_def
      sample_defs)
  ultimately show ?thesis
    using C10_update_frame[of "Some ADMIN" "''o1''" "status_body CANCELLED" "env_of ''o2''"
        "db_o1 CONFIRMED"]
    by simp
qed



lemma ordered_quantity_absent:
  "pid \<notin> i_productId ` set its \<Longrightarrow> ordered_quantity its pid = 0"
  by (induction its) (auto simp: ordered_quantity_def)

lemma ordered_quantity_line:
  "distinct (map i_productId its) \<Longrightarrow> it \<in> set its \<Longrightarrow>
   ordered_quantity its (i_productId it) = i_quantity it"
  by (induction its) (auto simp: ordered_quantity_Cons ordered_quantity_absent)




lemmas o1_defs = db_o1_def order_o1_def new_order_def env_of_def status_body_def Let_def
  product_X_def product_Y_def line_def body_of_def


section \<open>Order deletion\<close>

lemma DELETE_error_unchanged:
  "fst (orders_id_DELETE s oid d) = Inl err \<Longrightarrow> snd (orders_id_DELETE s oid d) = d"
  by (auto simp: orders_id_DELETE_def split: option.splits if_splits)

lemma DELETE_success_pending:
  "fst (orders_id_DELETE s oid d) = Inr u \<Longrightarrow>
   \<exists>ord. findUnique_order oid d = Some ord \<and> o_status ord = PENDING"
  by (auto simp: orders_id_DELETE_def split: option.splits if_splits)

lemma findUnique_order_deleted:
  "findUnique_order oid (d\<lparr>products := ps', orders := filter (\<lambda>x. o_id x \<noteq> oid) (orders d)\<rparr>) = None"
  by (simp add: findUnique_order_def find_None_iff)

text \<open>
  C6. The deletion handler succeeds only on an order whose status is PENDING. For an
  administrator and an existing order: when the status is not PENDING the answer is "Only
  pending orders can be deleted" and the database is unchanged; when it is PENDING (the
  products of its lines having rows) the order is removed with its lines and the stock of
  each product grows by the quantity the order holds of it, which is the quantity of its
  line when the lines name distinct products. Both writes are one transaction: a failed
  deletion changes nothing.
\<close>

theorem C6_delete_only_pending:
  "(\<forall>u. fst (orders_id_DELETE s oid d) = Inr u \<longrightarrow>
      (\<exists>ord. findUnique_order oid d = Some ord \<and> o_status ord = PENDING)) \<and>
   (s = Some ADMIN \<and> findUnique_order oid d = Some ord \<and> o_status ord \<noteq> PENDING \<longrightarrow>
      orders_id_DELETE s oid d = (Inl OnlyPendingDeletable, d)) \<and>
   (s = Some ADMIN \<and> findUnique_order oid d = Some ord \<and> o_status ord = PENDING \<and>
    items_resolve ord d \<longrightarrow>
      orders_id_DELETE s oid d =
        (Inr (), d\<lparr>products := restored (o_items ord) (products d),
                   orders := filter (\<lambda>x. o_id x \<noteq> oid) (orders d)\<rparr>) \<and>
      findUnique_order oid (snd (orders_id_DELETE s oid d)) = None) \<and>
   (\<forall>it \<in> set (o_items ord). distinct (map i_productId (o_items ord)) \<longrightarrow>
      ordered_quantity (o_items ord) (i_productId it) = i_quantity it) \<and>
   (\<forall>err. fst (orders_id_DELETE s oid d) = Inl err \<longrightarrow> snd (orders_id_DELETE s oid d) = d)"
proof -
  have 1: "\<forall>u. fst (orders_id_DELETE s oid d) = Inr u \<longrightarrow>
      (\<exists>ord. findUnique_order oid d = Some ord \<and> o_status ord = PENDING)"
    using DELETE_success_pending by blast
  have 2: "s = Some ADMIN \<and> findUnique_order oid d = Some ord \<and> o_status ord \<noteq> PENDING \<longrightarrow>
      orders_id_DELETE s oid d = (Inl OnlyPendingDeletable, d)"
    by (simp add: orders_id_DELETE_def)
  have 3: "orders_id_DELETE s oid d =
        (Inr (), d\<lparr>products := restored (o_items ord) (products d),
                   orders := filter (\<lambda>x. o_id x \<noteq> oid) (orders d)\<rparr>) \<and>
      findUnique_order oid (snd (orders_id_DELETE s oid d)) = None"
    if h: "s = Some ADMIN" "findUnique_order oid d = Some ord" "o_status ord = PENDING"
      "items_resolve ord d"
  proof -
    from h(4) have "restore_stock (o_items ord) (products d) = Some (restored (o_items ord) (products d))"
      by (simp add: items_resolve_def restore_stock_restored)
    with h(1,2,3) have "orders_id_DELETE s oid d =
        (Inr (), d\<lparr>products := restored (o_items ord) (products d),
                   orders := filter (\<lambda>x. o_id x \<noteq> oid) (orders d)\<rparr>)"
      by (simp add: orders_id_DELETE_def)
    then show ?thesis by (simp add: findUnique_order_deleted)
  qed
  have 4: "\<forall>it \<in> set (o_items ord). distinct (map i_productId (o_items ord)) \<longrightarrow>
      ordered_quantity (o_items ord) (i_productId it) = i_quantity it"
    by (simp add: ordered_quantity_line)
  have 5: "\<forall>err. fst (orders_id_DELETE s oid d) = Inl err \<longrightarrow> snd (orders_id_DELETE s oid d) = d"
    using DELETE_error_unchanged by blast
  show ?thesis
  proof (intro conjI)
    show "\<forall>u. fst (orders_id_DELETE s oid d) = Inr u \<longrightarrow>
      (\<exists>ord. findUnique_order oid d = Some ord \<and> o_status ord = PENDING)"
      by (rule 1)
    show "s = Some ADMIN \<and> findUnique_order oid d = Some ord \<and> o_status ord \<noteq> PENDING \<longrightarrow>
      orders_id_DELETE s oid d = (Inl OnlyPendingDeletable, d)"
      by (rule 2)
    show "s = Some ADMIN \<and> findUnique_order oid d = Some ord \<and> o_status ord = PENDING \<and>
        items_resolve ord d \<longrightarrow>
      orders_id_DELETE s oid d =
        (Inr (), d\<lparr>products := restored (o_items ord) (products d),
                   orders := filter (\<lambda>x. o_id x \<noteq> oid) (orders d)\<rparr>) \<and>
      findUnique_order oid (snd (orders_id_DELETE s oid d)) = None"
    proof (intro impI, elim conjE)
      assume "s = Some ADMIN" "findUnique_order oid d = Some ord" "o_status ord = PENDING"
        "items_resolve ord d"
      then show "orders_id_DELETE s oid d =
        (Inr (), d\<lparr>products := restored (o_items ord) (products d),
                   orders := filter (\<lambda>x. o_id x \<noteq> oid) (orders d)\<rparr>) \<and>
        findUnique_order oid (snd (orders_id_DELETE s oid d)) = None"
        by (rule 3)
    qed
    show "\<forall>it \<in> set (o_items ord). distinct (map i_productId (o_items ord)) \<longrightarrow>
      ordered_quantity (o_items ord) (i_productId it) = i_quantity it"
      by (rule 4)
    show "\<forall>err. fst (orders_id_DELETE s oid d) = Inl err \<longrightarrow> snd (orders_id_DELETE s oid d) = d"
      by (rule 5)
  qed
qed

text \<open>
  The theorem at the order of 2 of X and 1 of Y: in status PROCESSING the deletion is
  rejected; in status PENDING the order is gone and the stocks go from 3 and 2 to 5 and 3.
\<close>

theorem C6_delete_only_pending_witness:
  "findUnique_order ''o1'' (db_o1 PROCESSING) = Some (order_o1\<lparr>o_status := PROCESSING\<rparr>) \<and>
   orders_id_DELETE (Some ADMIN) ''o1'' (db_o1 PROCESSING) = (Inl OnlyPendingDeletable, db_o1 PROCESSING) \<and>
   findUnique_order ''o1'' (db_o1 PENDING) = Some order_o1 \<and> o_status order_o1 = PENDING \<and>
   items_resolve order_o1 (db_o1 PENDING) \<and>
   fst (orders_id_DELETE (Some ADMIN) ''o1'' (db_o1 PENDING)) = Inr () \<and>
   orders (snd (orders_id_DELETE (Some ADMIN) ''o1'' (db_o1 PENDING))) = [] \<and>
   map p_stock (products (db_o1 PENDING)) = [3, 2] \<and>
   map p_stock (products (snd (orders_id_DELETE (Some ADMIN) ''o1'' (db_o1 PENDING)))) = [5, 3]"
proof -
  have f1: "findUnique_order ''o1'' (db_o1 PROCESSING) = Some (order_o1\<lparr>o_status := PROCESSING\<rparr>)"
    by (simp add: findUnique_order_def o1_defs)
  have n1: "o_status (order_o1\<lparr>o_status := PROCESSING\<rparr>) \<noteq> PENDING" by simp
  have f2: "findUnique_order ''o1'' (db_o1 PENDING) = Some order_o1"
    by (simp add: findUnique_order_def o1_defs)
  have p2: "o_status order_o1 = PENDING"
    by (simp add: o1_defs)
  have r2: "items_resolve order_o1 (db_o1 PENDING)"
    by (simp add: items_resolve_def o1_defs)
  have v: "map p_stock (restored (o_items order_o1) (products (db_o1 PENDING))) = [5, 3]"
    by (simp add: restored_def ordered_quantity_def o1_defs)
  have o: "filter (\<lambda>x. o_id x \<noteq> ''o1'') (orders (db_o1 PENDING)) = []"
    by (simp add: o1_defs)
  have s: "map p_stock (products (db_o1 PENDING)) = [3, 2]"
    by (simp add: o1_defs)
  from C6_delete_only_pending[of "Some ADMIN" "''o1''" "db_o1 PROCESSING"
      "order_o1\<lparr>o_status := PROCESSING\<rparr>"] f1 n1
  have a: "orders_id_DELETE (Some ADMIN) ''o1'' (db_o1 PROCESSING)
             = (Inl OnlyPendingDeletable, db_o1 PROCESSING)"
    by blast
  from C6_delete_only_pending[of "Some ADMIN" "''o1''" "db_o1 PENDING" order_o1] f2 p2 r2
  have "orders_id_DELETE (Some ADMIN) ''o1'' (db_o1 PENDING) =
        (Inr (), (db_o1 PENDING)\<lparr>products := restored (o_items order_o1) (products (db_o1 PENDING)),
                   orders := filter (\<lambda>x. o_id x \<noteq> ''o1'') (orders (db_o1 PENDING))\<rparr>)"
    by blast
  with v o have "fst (orders_id_DELETE (Some ADMIN) ''o1'' (db_o1 PENDING)) = Inr () \<and>
   orders (snd (orders_id_DELETE (Some ADMIN) ''o1'' (db_o1 PENDING))) = [] \<and>
   map p_stock (products (snd (orders_id_DELETE (Some ADMIN) ''o1'' (db_o1 PENDING)))) = [5, 3]"
    by simp
  with f1 a f2 p2 r2 s show ?thesis by blast
qed




section \<open>Product deletion\<close>

lemma referenced_orderItems: "referenced pid d \<longleftrightarrow> 0 < length (orderItems_of pid d)"
  by (auto simp: referenced_def orderItems_of_def filter_empty_conv)

lemma findUnique_product_deleted:
  "findUnique_product pid (d\<lparr>products := filter (\<lambda>x. p_id x \<noteq> pid) (products d)\<rparr>) = None"
  by (simp add: findUnique_product_def find_None_iff)

text \<open>
  C8. The deletion of a product that some order line names is rejected, whoever asks: the
  database, products and orders, is returned as it was. For an administrator and an
  existing product the answer is "Cannot delete product with existing orders" when a line
  names it; when no line names it the product row is removed and the orders are
  untouched.
\<close>

theorem C8_product_delete_referential:
  "(referenced pid d \<longrightarrow> (\<exists>err. products_id_DELETE s pid d = (Inl err, d))) \<and>
   (s = Some ADMIN \<and> findUnique_product pid d = Some p \<and> referenced pid d \<longrightarrow>
      products_id_DELETE s pid d = (Inl CannotDeleteProductWithOrders, d)) \<and>
   (s = Some ADMIN \<and> findUnique_product pid d = Some p \<and> \<not> referenced pid d \<longrightarrow>
      products_id_DELETE s pid d
        = (Inr (), d\<lparr>products := filter (\<lambda>x. p_id x \<noteq> pid) (products d)\<rparr>) \<and>
      findUnique_product pid (snd (products_id_DELETE s pid d)) = None \<and>
      orders (snd (products_id_DELETE s pid d)) = orders d)"
proof (intro conjI impI)
  assume "referenced pid d"
  then show "\<exists>err. products_id_DELETE s pid d = (Inl err, d)"
    by (auto simp: products_id_DELETE_def referenced_orderItems split: option.splits)
next
  assume "s = Some ADMIN \<and> findUnique_product pid d = Some p \<and> referenced pid d"
  then show "products_id_DELETE s pid d = (Inl CannotDeleteProductWithOrders, d)"
    by (simp add: products_id_DELETE_def referenced_orderItems)
next
  assume a: "s = Some ADMIN \<and> findUnique_product pid d = Some p \<and> \<not> referenced pid d"
  then show r: "products_id_DELETE s pid d
        = (Inr (), d\<lparr>products := filter (\<lambda>x. p_id x \<noteq> pid) (products d)\<rparr>)"
    by (simp add: products_id_DELETE_def referenced_orderItems)
  show "findUnique_product pid (snd (products_id_DELETE s pid d)) = None"
    by (simp add: r findUnique_product_deleted)
  show "orders (snd (products_id_DELETE s pid d)) = orders d"
    by (simp add: r)
qed

text \<open>
  The theorem at product X: with the order of 2 of X in the database the deletion is
  rejected; with no order it succeeds and only Y remains.
\<close>

theorem C8_product_delete_referential_witness:
  "findUnique_product ''X'' (db_o1 PENDING) = Some (product_X\<lparr>p_stock := 3\<rparr>) \<and>
   referenced ''X'' (db_o1 PENDING) \<and>
   products_id_DELETE (Some ADMIN) ''X'' (db_o1 PENDING)
     = (Inl CannotDeleteProductWithOrders, db_o1 PENDING) \<and>
   findUnique_product ''X'' db_empty = Some product_X \<and>
   \<not> referenced ''X'' db_empty \<and>
   fst (products_id_DELETE (Some ADMIN) ''X'' db_empty) = Inr () \<and>
   products (snd (products_id_DELETE (Some ADMIN) ''X'' db_empty)) = [product_Y]"
proof -
  have f1: "findUnique_product ''X'' (db_o1 PENDING) = Some (product_X\<lparr>p_stock := 3\<rparr>)"
    by (simp add: findUnique_product_def o1_defs)
  have r1: "referenced ''X'' (db_o1 PENDING)"
    by (simp add: referenced_def o1_defs)
  have f2: "findUnique_product ''X'' db_empty = Some product_X"
    by (simp add: findUnique_product_def sample_defs)
  have r2: "\<not> referenced ''X'' db_empty"
    by (simp add: referenced_def sample_defs)
  have v: "filter (\<lambda>x. p_id x \<noteq> ''X'') (products db_empty) = [product_Y]"
    by (simp add: sample_defs)
  from C8_product_delete_referential[of "''X''" "db_o1 PENDING" "Some ADMIN" "product_X\<lparr>p_stock := 3\<rparr>"]
    f1 r1
  have a: "products_id_DELETE (Some ADMIN) ''X'' (db_o1 PENDING)
     = (Inl CannotDeleteProductWithOrders, db_o1 PENDING)"
    by blast
  from C8_product_delete_referential[of "''X''" db_empty "Some ADMIN" product_X] f2 r2
  have "products_id_DELETE (Some ADMIN) ''X'' db_empty
        = (Inr (), db_empty\<lparr>products := filter (\<lambda>x. p_id x \<noteq> ''X'') (products db_empty)\<rparr>)"
    by blast
  with v have "fst (products_id_DELETE (Some ADMIN) ''X'' db_empty) = Inr () \<and>
   products (snd (products_id_DELETE (Some ADMIN) ''X'' db_empty)) = [product_Y]"
    by simp
  with f1 r1 a f2 r2 show ?thesis by blast
qed

section \<open>Order creation: line prices\<close>

lemma POST_success:
  assumes "orders_POST s b e d = (Inr ord, d')"
  shows "ord = new_order b e" and "orders d' = orders d @ [ord]"
    and "e_newId e \<notin> o_id ` set (orders d)" and "customers d' = customers d"
    and "decrement_stock (b_items b) (products d) = Some (products d')"
    and "POST_checks s b d = None"
  using assms
  by (auto simp: orders_POST_def POST_transaction_def Let_def split: option.splits if_splits)

lemma find_append_last:
  "\<forall>x \<in> set xs. \<not> P x \<Longrightarrow> P y \<Longrightarrow> find P (xs @ [y]) = Some y"
  by (induction xs) auto

lemma POST_stored:
  assumes "orders_POST s b e d = (Inr ord, d')"
  shows "findUnique_order (o_id ord) d' = Some ord"
proof -
  from POST_success[OF assms] have "o_id ord = e_newId e"
    by (simp add: new_order_def Let_def)
  with POST_success(3)[OF assms] have "\<forall>x \<in> set (orders d). \<not> o_id x = o_id ord"
    by (metis image_eqI)
  then have "find (\<lambda>x. o_id x = o_id ord) (orders d @ [ord]) = Some ord"
    by (rule find_append_last) simp
  with POST_success(2)[OF assms] show ?thesis
    by (simp add: findUnique_order_def)
qed

lemma product_PUT_orders: "orders (snd (products_id_PUT s pid b d)) = orders d"
  by (auto simp: products_id_PUT_def split: option.splits)

text \<open>
  C4, as stated, fails: the unit price of a line is not read from the catalog. The
  catalog price of X is 10; a request for one X at price 1 succeeds and the stored line
  price is 1.
\<close>

theorem C4_counterexample:
  "findUnique_product ''X'' db_empty = Some product_X \<and> p_price product_X = 10 \<and>
   map_sum id (\<lambda>ord. map i_productId (o_items ord))
     (fst (orders_POST (Some ADMIN) (body_of [line ''X'' 1 1]) (env_of ''o1'') db_empty))
     = Inr [''X''] \<and>
   map_sum id (\<lambda>ord. map i_price (o_items ord))
     (fst (orders_POST (Some ADMIN) (body_of [line ''X'' 1 1]) (env_of ''o1'') db_empty))
     = Inr [1]"
  by (simp add: sample_defs findUnique_product_def orders_POST_def POST_checks_def
      OrderCreateSchema_def findMany_products_def POST_transaction_def new_order_def
      product_decrement_def Let_def)

text \<open>
  C4, amended. For every order that is created, the stored lines are the lines of the
  request in their order, and the stored unit price of each line is the price the request
  gives for that line (\<^verbatim>\<open>price: item.price\<close>); the catalog price of the product is not
  consulted. The order is stored as returned, and a later product update, whatever it
  changes, leaves every stored order, its line prices and its totals as they were.
\<close>

theorem C4_line_price_from_request:
  "(orders_POST s b e d = (Inr ord, d') \<longrightarrow>
      map i_productId (o_items ord) = map r_productId (b_items b) \<and>
      map i_quantity (o_items ord) = map r_quantity (b_items b) \<and>
      map i_price (o_items ord) = map r_price (b_items b) \<and>
      findUnique_order (o_id ord) d' = Some ord) \<and>
   orders (snd (products_id_PUT s' pid pb d')) = orders d'"
proof (intro conjI impI)
  assume a: "orders_POST s b e d = (Inr ord, d')"
  from POST_success(1)[OF a]
  show "map i_productId (o_items ord) = map r_productId (b_items b)"
    and "map i_quantity (o_items ord) = map r_quantity (b_items b)"
    and "map i_price (o_items ord) = map r_price (b_items b)"
    by (simp_all add: new_order_def Let_def comp_def)
  show "findUnique_order (o_id ord) d' = Some ord"
    using a by (rule POST_stored)
next
  show "orders (snd (products_id_PUT s' pid pb d')) = orders d'"
    by (rule product_PUT_orders)
qed


lemma POST_sample_created:
  "orders_POST (Some ADMIN) (body_of [line ''X'' 1 1]) (env_of ''o1'') db_empty
     = (Inr (new_order (body_of [line ''X'' 1 1]) (env_of ''o1'')),
        db_empty\<lparr>products := [product_X\<lparr>p_stock := 4\<rparr>, product_Y],
                 orders := [new_order (body_of [line ''X'' 1 1]) (env_of ''o1'')]\<rparr>)"
  by (simp add: sample_defs orders_POST_def POST_checks_def OrderCreateSchema_def
      findMany_products_def POST_transaction_def product_decrement_def Let_def)

text \<open>
  The theorem at the request for one X at price 1.
\<close>

theorem C4_line_price_from_request_witness:
  "orders_POST (Some ADMIN) (body_of [line ''X'' 1 1]) (env_of ''o1'') db_empty
     = (Inr (new_order (body_of [line ''X'' 1 1]) (env_of ''o1'')),
        db_empty\<lparr>products := [product_X\<lparr>p_stock := 4\<rparr>, product_Y],
                 orders := [new_order (body_of [line ''X'' 1 1]) (env_of ''o1'')]\<rparr>) \<and>
   map i_price (o_items (new_order (body_of [line ''X'' 1 1]) (env_of ''o1''))) = [1] \<and>
   p_price product_X = 10"
proof -
  have "map r_price (b_items (body_of [line ''X'' 1 1])) = [1]"
    by (simp add: sample_defs)
  moreover have "p_price product_X = 10"
    by (simp add: product_X_def)
  ultimately show ?thesis
    using POST_sample_created
      C4_line_price_from_request[of "Some ADMIN" "body_of [line ''X'' 1 1]" "env_of ''o1''" db_empty
        "new_order (body_of [line ''X'' 1 1]) (env_of ''o1'')"
        "db_empty\<lparr>products := [product_X\<lparr>p_stock := 4\<rparr>, product_Y],
                 orders := [new_order (body_of [line ''X'' 1 1]) (env_of ''o1'')]\<rparr>"]
    by simp
qed

section \<open>Order totals\<close>





















section \<open>Stock never negative, one request after the other\<close>

lemma product_decrement_Some:
  "product_decrement pid n ps = Some ps' \<Longrightarrow>
   ps' = map (\<lambda>p. if p_id p = pid then p\<lparr>p_stock := p_stock p - n\<rparr> else p) ps"
  by (auto simp: product_decrement_def split: if_splits)

lemma decrement_stock_ids:
  "decrement_stock its ps = Some ps' \<Longrightarrow> map p_id ps' = map p_id ps"
proof (induction its arbitrary: ps)
  case Nil
  then show ?case by simp
next
  case (Cons it its)
  then obtain ps1 where 1: "product_decrement (r_productId it) (r_quantity it) ps = Some ps1"
    and 2: "decrement_stock its ps1 = Some ps'"
    by (auto split: option.splits)
  from product_decrement_Some[OF 1] have "map p_id ps1 = map p_id ps"
    by (simp add: map_p_id_bump)
  with Cons.IH[OF 2] show ?case by simp
qed

lemma decrement_stock_nonneg:
  assumes "distinct (map r_productId its)"
    and "\<forall>it \<in> set its. \<forall>p \<in> set ps. p_id p = r_productId it \<longrightarrow> r_quantity it \<le> p_stock p"
    and "\<forall>p \<in> set ps. 0 \<le> p_stock p"
    and "decrement_stock its ps = Some ps'"
  shows "\<forall>p \<in> set ps'. 0 \<le> p_stock p"
  using assms
proof (induction its arbitrary: ps)
  case Nil
  then show ?case by simp
next
  case (Cons it its)
  let ?ps1 = "map (\<lambda>p. if p_id p = r_productId it then p\<lparr>p_stock := p_stock p - r_quantity it\<rparr> else p) ps"
  from Cons.prems(4) obtain ps1 where 1: "product_decrement (r_productId it) (r_quantity it) ps = Some ps1"
    and 2: "decrement_stock its ps1 = Some ps'"
    by (auto split: option.splits)
  from product_decrement_Some[OF 1] have ps1: "ps1 = ?ps1" .
  have d: "distinct (map r_productId its)" using Cons.prems(1) by simp
  from Cons.prems(1) have "r_productId it \<notin> r_productId ` set its" by simp
  then have fresh: "\<forall>x \<in> set its. r_productId x \<noteq> r_productId it"
    by (metis imageI)
  have q: "\<forall>x \<in> set its. \<forall>p \<in> set ?ps1. p_id p = r_productId x \<longrightarrow> r_quantity x \<le> p_stock p"
    using Cons.prems(2) fresh by auto
  have n: "\<forall>p \<in> set ?ps1. 0 \<le> p_stock p"
    using Cons.prems(2,3) by auto
  from Cons.IH[OF d q n] 2 ps1 show ?case by simp
qed

lemma find_unique_key:
  "distinct (map key xs) \<Longrightarrow> x \<in> set xs \<Longrightarrow> find (\<lambda>y. key y = key x) xs = Some x"
  by (induction xs) (auto simp: image_iff)

lemma checks_passed_lines:
  assumes c: "POST_checks s b d = None" and u: "product_ids_unique d"
  shows "distinct (map r_productId (b_items b))"
    and "\<forall>it \<in> set (b_items b). \<forall>p \<in> set (products d).
           p_id p = r_productId it \<longrightarrow> r_quantity it \<le> p_stock p"
    and "\<forall>it \<in> set (b_items b). 1 \<le> r_quantity it"
proof -
  let ?prods = "findMany_products (map r_productId (b_items b)) (products d)"
  from c have len: "length ?prods = length (map r_productId (b_items b))"
    and chk: "check_stock ?prods (b_items b) = None"
    and sch: "OrderCreateSchema b"
    by (auto simp: POST_checks_def Let_def split: option.splits if_splits)
  show "distinct (map r_productId (b_items b))"
  proof (rule ccontr)
    assume "\<not> distinct (map r_productId (b_items b))"
    with u have "length ?prods < length (map r_productId (b_items b))"
      unfolding findMany_products_def product_ids_unique_def
      by (intro found_less_when_repeated)
    with len show False by simp
  qed
  show "\<forall>it \<in> set (b_items b). \<forall>p \<in> set (products d).
           p_id p = r_productId it \<longrightarrow> r_quantity it \<le> p_stock p"
  proof (intro ballI impI)
    fix it p
    assume it: "it \<in> set (b_items b)" and p: "p \<in> set (products d)" and e: "p_id p = r_productId it"
    from u p have "find (\<lambda>y. p_id y = p_id p) (products d) = Some p"
      unfolding product_ids_unique_def by (rule find_unique_key)
    with e have "findUnique_product (r_productId it) d = Some p"
      by (simp add: findUnique_product_def)
    moreover from chk it have "\<not> line_short ?prods it"
      by (simp add: check_stock_None_iff)
    ultimately show "r_quantity it \<le> p_stock p"
      using it by (simp add: line_short_found insufficient_def)
  qed
  from sch show "\<forall>it \<in> set (b_items b). 1 \<le> r_quantity it"
    by (simp add: OrderCreateSchema_def)
qed

lemma POST_inv:
  assumes "inventory_inv d"
  shows "inventory_inv (snd (orders_POST s b e d))"
proof (cases "orders_POST s b e d")
  case (Pair res d')
  show ?thesis
  proof (cases res)
    case (Inl err)
    with Pair have "d' = d"
      by (auto simp: orders_POST_def split: option.splits)
    with Pair assms show ?thesis by simp
  next
    case (Inr ord)
    with Pair have r: "orders_POST s b e d = (Inr ord, d')" by simp
    note ps = POST_success[OF r]
    from assms have u: "product_ids_unique d" and n: "\<forall>p \<in> set (products d). 0 \<le> p_stock p"
      and q: "quantities_nonneg d"
      by (simp_all add: inventory_inv_def stock_nonneg_def)
    note ln = checks_passed_lines[OF ps(6) u]
    from decrement_stock_nonneg[OF ln(1) ln(2) n ps(5)] have 1: "stock_nonneg d'"
      by (simp add: stock_nonneg_def)
    from decrement_stock_ids[OF ps(5)] u have 2: "product_ids_unique d'"
      by (simp add: product_ids_unique_def)
    from ln(3) have "\<forall>it \<in> set (o_items (new_order b e)). 0 \<le> i_quantity it"
      by (auto simp: new_order_def Let_def)
    with q ps(1,2) have 3: "quantities_nonneg d'"
      by (auto simp: quantities_nonneg_def)
    from 1 2 3 Pair show ?thesis by (simp add: inventory_inv_def)
  qed
qed

lemma restore_stock_nonneg:
  assumes "\<forall>it \<in> set its. 0 \<le> i_quantity it" and "\<forall>p \<in> set ps. 0 \<le> p_stock p"
    and "restore_stock its ps = Some ps'"
  shows "(\<forall>p \<in> set ps'. 0 \<le> p_stock p) \<and> map p_id ps' = map p_id ps"
  using assms
proof (induction its arbitrary: ps)
  case Nil
  then show ?case by simp
next
  case (Cons it its)
  from Cons.prems(3) obtain ps1 where 1: "product_increment (i_productId it) (i_quantity it) ps = Some ps1"
    and 2: "restore_stock its ps1 = Some ps'"
    by (auto split: option.splits)
  from 1 have ps1: "ps1 = map (\<lambda>p. if p_id p = i_productId it
                                   then p\<lparr>p_stock := p_stock p + i_quantity it\<rparr> else p) ps"
    by (auto simp: product_increment_def split: if_splits)
  with Cons.prems(1,2) have n: "\<forall>p \<in> set ps1. 0 \<le> p_stock p" by auto
  from ps1 have ids: "map p_id ps1 = map p_id ps" by (simp add: map_p_id_bump)
  from Cons.prems(1) have "\<forall>x \<in> set its. 0 \<le> i_quantity x" by simp
  from Cons.IH[OF this n 2] ids show ?case by simp
qed

lemma findUnique_order_mem: "findUnique_order oid d = Some ord \<Longrightarrow> ord \<in> set (orders d)"
  by (auto simp: findUnique_order_def find_Some_iff)

lemma PUT_inv:
  assumes "inventory_inv d"
  shows "inventory_inv (snd (orders_id_PUT s oid b e d))"
proof -
  from assms have u: "product_ids_unique d" and n: "\<forall>p \<in> set (products d). 0 \<le> p_stock p"
    and q: "quantities_nonneg d"
    by (simp_all add: inventory_inv_def stock_nonneg_def)
  have os: "quantities_nonneg (d\<lparr>products := ps',
      orders := map (\<lambda>x. if o_id x = oid then apply_order_update b (e_now e) x else x) (orders d)\<rparr>)"
    for ps'
    using q by (auto simp: quantities_nonneg_def apply_order_update_def)
  have ok: "inventory_inv (d\<lparr>products := ps',
      orders := map (\<lambda>x. if o_id x = oid then apply_order_update b (e_now e) x else x) (orders d)\<rparr>)"
    if "(\<forall>p \<in> set ps'. 0 \<le> p_stock p) \<and> map p_id ps' = map p_id (products d)" for ps'
    using that u os[of ps'] by (simp add: inventory_inv_def stock_nonneg_def product_ids_unique_def)
  show ?thesis
  proof (cases "findUnique_order oid d")
    case None
    with assms show ?thesis
      by (auto simp: orders_id_PUT_def split: option.splits)
  next
    case (Some ord)
    then have "ord \<in> set (orders d)" by (rule findUnique_order_mem)
    with q have qi: "\<forall>it \<in> set (o_items ord). 0 \<le> i_quantity it"
      by (auto simp: quantities_nonneg_def)
    have r: "(\<forall>p \<in> set ps'. 0 \<le> p_stock p) \<and> map p_id ps' = map p_id (products d)"
      if "apply_stockUpdates (stockUpdates_of b ord) (products d) = Some ps'" for ps'
    proof (cases "u_status b = Some CANCELLED \<and> o_status ord \<noteq> CANCELLED")
      case True
      with that have "restore_stock (o_items ord) (products d) = Some ps'"
        by (simp add: stockUpdates_of_def apply_stockUpdates_restore)
      from restore_stock_nonneg[OF qi n this] show ?thesis .
    next
      case False
      with that have "ps' = products d" by (auto simp: stockUpdates_of_def)
      with n show ?thesis by simp
    qed
    have r0: "(\<forall>p \<in> set (products d). 0 \<le> p_stock p) \<and> map p_id (products d) = map p_id (products d)"
      using n by simp
    from Some assms ok[OF r] ok[OF r0] show ?thesis
      by (auto simp: orders_id_PUT_def Let_def split: option.splits)
  qed
qed

lemma DELETE_inv:
  assumes "inventory_inv d"
  shows "inventory_inv (snd (orders_id_DELETE s oid d))"
proof -
  from assms have u: "product_ids_unique d" and n: "\<forall>p \<in> set (products d). 0 \<le> p_stock p"
    and q: "quantities_nonneg d"
    by (simp_all add: inventory_inv_def stock_nonneg_def)
  show ?thesis
  proof (cases "findUnique_order oid d")
    case None
    with assms show ?thesis
      by (auto simp: orders_id_DELETE_def split: option.splits)
  next
    case (Some ord)
    then have "ord \<in> set (orders d)" by (rule findUnique_order_mem)
    with q have qi: "\<forall>it \<in> set (o_items ord). 0 \<le> i_quantity it"
      by (auto simp: quantities_nonneg_def)
    have ok: "inventory_inv (d\<lparr>products := ps', orders := filter (\<lambda>x. o_id x \<noteq> oid) (orders d)\<rparr>)"
      if "restore_stock (o_items ord) (products d) = Some ps'" for ps'
      using restore_stock_nonneg[OF qi n that] u q
      by (auto simp: inventory_inv_def stock_nonneg_def product_ids_unique_def quantities_nonneg_def)
    from Some assms ok show ?thesis
      by (auto simp: orders_id_DELETE_def split: option.splits)
  qed
qed

lemma product_POST_inv:
  assumes "inventory_inv d"
  shows "inventory_inv (snd (products_POST s b e d))"
  using assms
  by (auto simp: products_POST_def Let_def inventory_inv_def stock_nonneg_def
      product_ids_unique_def quantities_nonneg_def createProductSchema_def)

lemma apply_product_update_stock:
  "updateProductSchema b \<Longrightarrow> 0 \<le> p_stock p \<Longrightarrow> 0 \<le> p_stock (apply_product_update b p)"
  by (auto simp: updateProductSchema_def apply_product_update_def split: option.splits)

lemma map_p_id_update:
  "map p_id (map (\<lambda>p. if p_id p = pid then apply_product_update b p else p) ps) = map p_id ps"
  by (induction ps) (auto simp: apply_product_update_def)

lemma product_PUT_inv:
  assumes "inventory_inv d"
  shows "inventory_inv (snd (products_id_PUT s pid b d))"
proof -
  from assms have u: "product_ids_unique d" and n: "\<forall>p \<in> set (products d). 0 \<le> p_stock p"
    and q: "quantities_nonneg d"
    by (simp_all add: inventory_inv_def stock_nonneg_def)
  have ok: "inventory_inv (d\<lparr>products := map (\<lambda>p. if p_id p = pid then apply_product_update b p else p)
                                  (products d)\<rparr>)"
    if v: "updateProductSchema b"
  proof -
    let ?ps' = "map (\<lambda>p. if p_id p = pid then apply_product_update b p else p) (products d)"
    have "map p_id ?ps' = map p_id (products d)" by (rule map_p_id_update)
    with u have 1: "distinct (map p_id ?ps')" by (simp only: product_ids_unique_def)
    have 2: "\<forall>p \<in> set ?ps'. 0 \<le> p_stock p"
      using n v by (auto simp: apply_product_update_stock)
    from 1 2 q show ?thesis
      by (simp add: inventory_inv_def stock_nonneg_def product_ids_unique_def
          quantities_nonneg_def del: map_map)
  qed
  from assms ok show ?thesis
    by (auto simp: products_id_PUT_def split: option.splits)
qed

lemma product_DELETE_inv:
  assumes "inventory_inv d"
  shows "inventory_inv (snd (products_id_DELETE s pid d))"
  using assms
  by (auto simp: products_id_DELETE_def inventory_inv_def stock_nonneg_def
      product_ids_unique_def quantities_nonneg_def distinct_map_filter split: option.splits)

lemma step_inv: "inventory_inv d \<Longrightarrow> inventory_inv (step op d)"
  by (cases op)
    (simp_all add: POST_inv PUT_inv DELETE_inv product_POST_inv product_PUT_inv product_DELETE_inv)

lemma run_inv: "inventory_inv d \<Longrightarrow> inventory_inv (run ops d)"
  unfolding run_def by (induction ops arbitrary: d) (simp_all add: step_inv)

text \<open>
  C2, as stated, fails under concurrent order creations. X has 5 in stock and two requests
  ask for 3 of X each. The stock check of the handler runs before, and outside, the
  transaction that decrements: when the second request is checked before the first has
  committed, both pass, both transactions decrement, and the stock of X is -1. Served one
  after the other, the second request is rejected and the stock is 2.
\<close>

theorem C2_counterexample:
  "inventory_inv db_empty \<and>
   map p_stock (products db_empty) = [5, 3] \<and>
   map p_stock (products (POST_interleaved
      (Some ADMIN) (body_of [line ''X'' 3 10]) (env_of ''o1'')
      (Some MANAGER) (body_of [line ''X'' 3 10]) (env_of ''o2'') db_empty)) = [- 1, 3] \<and>
   map p_stock (products (run
      [CreateOrder (Some ADMIN) (body_of [line ''X'' 3 10]) (env_of ''o1''),
       CreateOrder (Some MANAGER) (body_of [line ''X'' 3 10]) (env_of ''o2'')] db_empty)) = [2, 3]"
  by (simp add: sample_defs inventory_inv_def stock_nonneg_def product_ids_unique_def
      quantities_nonneg_def POST_interleaved_def POST_commit_def run_def orders_POST_def
      POST_checks_def OrderCreateSchema_def findMany_products_def POST_transaction_def
      product_decrement_def new_order_def Let_def)

text \<open>
  C2, amended. Start from a database with no negative stock (and with unique product ids
  and no negative quantity on a stored line). After any sequence of requests served one
  after the other (order creation, update with cancellation, and deletion; product
  creation, update and deletion, by any sessions and with any bodies) every product has a
  stock of at least 0. Order creation decrements only what its check has found in stock,
  cancellation and deletion add, and the product schemas accept no negative stock. For
  concurrent order creations the handlers give no such guarantee.
\<close>

theorem C2_stock_nonneg_sequential:
  assumes "inventory_inv d0"
  shows "(\<forall>p \<in> set (products (run ops d0)). 0 \<le> p_stock p) \<and> inventory_inv (run ops d0)"
  using run_inv[OF assms, of ops] by (simp add: inventory_inv_def stock_nonneg_def)

text \<open>
  The theorem at two requests for 3 of X, the second rejected, then the cancellation of
  the first order: the stocks are back at 5 and 3.
\<close>

theorem C2_stock_nonneg_sequential_witness:
  "inventory_inv db_empty \<and>
   map p_stock (products (run
      [CreateOrder (Some ADMIN) (body_of [line ''X'' 3 10]) (env_of ''o1''),
       CreateOrder (Some MANAGER) (body_of [line ''X'' 3 10]) (env_of ''o2''),
       UpdateOrder (Some ADMIN) ''o1'' (status_body CANCELLED) (env_of ''u1'')] db_empty)) = [5, 3] \<and>
   stock_nonneg (run
      [CreateOrder (Some ADMIN) (body_of [line ''X'' 3 10]) (env_of ''o1''),
       CreateOrder (Some MANAGER) (body_of [line ''X'' 3 10]) (env_of ''o2''),
       UpdateOrder (Some ADMIN) ''o1'' (status_body CANCELLED) (env_of ''u1'')] db_empty)"
proof -
  let ?ops = "[CreateOrder (Some ADMIN) (body_of [line ''X'' 3 10]) (env_of ''o1''),
       CreateOrder (Some MANAGER) (body_of [line ''X'' 3 10]) (env_of ''o2''),
       UpdateOrder (Some ADMIN) ''o1'' (status_body CANCELLED) (env_of ''u1'')]"
  have i: "inventory_inv db_empty"
    by (simp add: sample_defs inventory_inv_def stock_nonneg_def product_ids_unique_def
        quantities_nonneg_def)
  have v: "map p_stock (products (run ?ops db_empty)) = [5, 3]"
    by (simp add: sample_defs status_body_def run_def orders_POST_def
      POST_checks_def OrderCreateSchema_def findMany_products_def POST_transaction_def
      product_decrement_def new_order_def Let_def orders_id_PUT_def findUnique_order_def
      stockUpdates_of_def product_increment_def apply_order_update_def)
  from C2_stock_nonneg_sequential[OF i, of ?ops] have "stock_nonneg (run ?ops db_empty)"
    by (simp add: inventory_inv_def)
  with i v show ?thesis by simp
qed


end
